theory Spec2Isabelle
  imports Main "HOL-Library.Word"
begin

unbundle bit_operations_syntax

section \<open>The command line front-end of the PWM tool (src/main.c)\<close>

text \<open>
  The front-end parses the command line into the global \<open>config\<close>, opens the PWM
  channel, hands a \<open>pwm_execute_config_t\<close> to the script interpreter, closes the channel
  and exits with the interpreter's status. The PWM library itself (\<open>pwm.h\<close>, \<open>pwm.c\<close>)
  and the C library are not part of the file: what \<open>main.c\<close> uses of them is a record of
  parameters, so that every theorem about \<open>main\<close> holds for every library.
\<close>

subsection \<open>Data\<close>

text \<open>A C \<open>unsigned int\<close>. Status codes and exit codes (\<open>int\<close>, \<open>pwm_status_t\<close>) are
  never the result of arithmetic that could overflow, so they are mathematical integers.\<close>

type_synonym uint = "32 word"

text \<open>\<open>typedef struct config { ... } config_t\<close>. The \<open>char *script\<close> is \<open>None\<close> when it
  is the null pointer.\<close>

record config_t =
  chip :: uint
  channel :: uint
  frequency_hz :: uint
  duration_ms :: uint
  duty_val :: uint
  keep_enabled :: int
  script :: "string option"

text \<open>The only object whose address \<open>main\<close> stores in \<open>stop_flag\<close> is the global
  \<open>exit_flag\<close>.\<close>

datatype int_ptr = Addr_exit_flag

text \<open>\<open>pwm_execute_config_t\<close>, with the fields \<open>main\<close> initialises. Its \<open>script\<close> field
  is called \<open>exec_script\<close> here, the name \<open>script\<close> being taken by \<open>config_t\<close>.\<close>

record pwm_execute_config_t =
  exec_script :: "string option"
  default_frequency_hz :: uint
  default_duration_ms :: uint
  default_duty_val :: uint
  stop_flag :: int_ptr

text \<open>
  What \<open>main.c\<close> takes from outside: the constants and functions of \<open>pwm.h\<close>, and of
  the C library the width of \<open>unsigned long\<close> and whether an allocation succeeds. The type
  \<open>'w\<close> is the state of everything outside the program: the \<open>pwm_t\<close> handle, the sysfs
  attributes, the heap, and the signals still to arrive. \<open>pwm_close\<close> returns nothing that
  \<open>main\<close> reads.
\<close>

record 'w extern =
  PWM_FLAG_EXPORT :: uint
  PWM_DUTY_PERCENT_FLAG :: uint
  PWM_DUTY_DEFAULT :: uint
  pwm_open :: "uint \<Rightarrow> uint \<Rightarrow> uint \<Rightarrow> 'w \<Rightarrow> int \<times> 'w"
  pwm_execute :: "pwm_execute_config_t \<Rightarrow> 'w \<Rightarrow> int \<times> 'w"
  pwm_close :: "'w \<Rightarrow> 'w"
  ULONG_MAX :: nat
  alloc :: "nat \<Rightarrow> 'w \<Rightarrow> bool \<times> 'w"

text \<open>Modelled from the spec: the constant \<open>PWM_E_OK\<close> of \<open>pwm.h\<close>, which is not among
  the sources. The spec gives a successful run the exit code 0, and \<open>main\<close> exits with
  the status of \<open>pwm_execute\<close>; \<open>main\<close> itself initialises \<open>pwm_status_t ret = 0\<close>.\<close>

definition PWM_E_OK :: int where
  "PWM_E_OK = 0"

text \<open>\<open>errno.h\<close> on Linux.\<close>

definition ENOMEM :: int where
  "ENOMEM = 12"

definition EINVAL :: int where
  "EINVAL = 22"

definition DEFAULT_PWM_CHIP :: uint where
  "DEFAULT_PWM_CHIP = 0"

definition DEFAULT_PWM_CHANNEL :: uint where
  "DEFAULT_PWM_CHANNEL = 0"

definition DEFAULT_PWM_FREQUENCY_HZ :: uint where
  "DEFAULT_PWM_FREQUENCY_HZ = 1000"

definition DEFAULT_PWM_DURATION_MS :: uint where
  "DEFAULT_PWM_DURATION_MS = 250"

text \<open>The initialiser of the global \<open>config\<close>; \<open>script\<close> is not named there, so it is
  the null pointer.\<close>

definition config_init :: "'w extern \<Rightarrow> config_t" where
  "config_init x =
     \<lparr>chip = DEFAULT_PWM_CHIP,
      channel = DEFAULT_PWM_CHANNEL,
      frequency_hz = DEFAULT_PWM_FREQUENCY_HZ,
      duration_ms = DEFAULT_PWM_DURATION_MS,
      duty_val = PWM_DUTY_DEFAULT x,
      keep_enabled = 0,
      script = None\<rparr>"

subsection \<open>The C library: \<open>strtoul\<close> and \<open>strdup\<close>\<close>

text \<open>\<open>isspace\<close> in the C locale: space, \<open>\t \n \v \f \r\<close>.\<close>

definition isspace :: "char \<Rightarrow> bool" where
  "isspace c \<longleftrightarrow> c = CHR '' '' \<or> (9 \<le> (of_char c :: nat) \<and> (of_char c :: nat) \<le> 13)"

text \<open>The value of a character as a digit: \<open>0\<close> to \<open>9\<close>, then the letters of either case
  from 10 on.\<close>

definition digit_val :: "char \<Rightarrow> nat option" where
  "digit_val c =
     (let n = (of_char c :: nat) in
      if 48 \<le> n \<and> n \<le> 57 then Some (n - 48)
      else if 97 \<le> n \<and> n \<le> 122 then Some (n - 87)
      else if 65 \<le> n \<and> n \<le> 90 then Some (n - 55)
      else None)"

text \<open>The longest run of digits of the base, read from the left; it stops at the first
  character that is no digit of the base.\<close>

fun conv_digits :: "nat \<Rightarrow> nat \<Rightarrow> string \<Rightarrow> nat" where
  "conv_digits b acc [] = acc"
| "conv_digits b acc (c # cs) =
     (case digit_val c of
        None \<Rightarrow> acc
      | Some d \<Rightarrow> if d < b then conv_digits b (acc * b + d) cs else acc)"

text \<open>A \<open>0x\<close> or \<open>0X\<close> counts as a prefix only when a hexadecimal digit follows it.\<close>

fun hex_prefix :: "string \<Rightarrow> bool" where
  "hex_prefix (z # x # d # cs) =
     (z = CHR ''0'' \<and> (x = CHR ''x'' \<or> x = CHR ''X'') \<and>
      (case digit_val d of None \<Rightarrow> False | Some v \<Rightarrow> v < 16))"
| "hex_prefix cs = False"

fun strip_sign :: "string \<Rightarrow> bool \<times> string" where
  "strip_sign [] = (False, [])"
| "strip_sign (c # cs) =
     (if c = CHR ''-'' then (True, cs)
      else if c = CHR ''+'' then (False, cs)
      else (False, c # cs))"

text \<open>
  \<open>strtoul(nptr, NULL, base)\<close> of ISO C, for an \<open>unsigned long\<close> whose largest value is
  \<open>umax\<close>: white space is skipped, then an optional sign, then with base 0 the prefix
  chooses the base (\<open>0x\<close> hexadecimal, \<open>0\<close> octal, decimal otherwise). No digits give 0, a
  value beyond \<open>umax\<close> gives \<open>umax\<close>, and a minus sign negates in \<open>unsigned long\<close>.
\<close>

definition strtoul :: "nat \<Rightarrow> string \<Rightarrow> nat \<Rightarrow> nat" where
  "strtoul umax nptr base =
     (let (neg, s) = strip_sign (dropWhile isspace nptr);
          hex = ((base = 0 \<or> base = 16) \<and> hex_prefix s);
          b = (if hex then 16
               else if base = 0 then (case s of c # cs \<Rightarrow> if c = CHR ''0'' then 8 else 10 | [] \<Rightarrow> 10)
               else base);
          v = conv_digits b 0 (if hex then drop 2 s else s)
      in if umax < v then umax
         else if neg \<and> v \<noteq> 0 then umax + 1 - v
         else v)"

text \<open>\<open>strdup\<close> returns a copy of the string, or the null pointer when the allocation of
  its bytes fails.\<close>

definition strdup :: "'w extern \<Rightarrow> string \<Rightarrow> 'w \<Rightarrow> string option \<times> 'w" where
  "strdup x s w = (case alloc x (length s + 1) w of (ok, w') \<Rightarrow> (if ok then Some s else None, w'))"

subsection \<open>Option parsing\<close>

text \<open>What the program does that can be seen from outside, in order: what it prints and
  which functions of the C and PWM libraries it calls, with the arguments it passes.\<close>

datatype event =
    Display_usage
  | Print_version
  | Print_out_of_memory
  | Print_cant_open uint uint int
  | Call_atexit_cleanup
  | Call_signal_SIGINT
  | Call_pwm_open uint uint uint
  | Call_pwm_execute pwm_execute_config_t
  | Call_pwm_close
  | Call_free_script

text \<open>A function either returns a value or ends the process with \<open>exit(n)\<close>.\<close>

datatype 'a outcome = Exits int | Returns 'a

text \<open>The body of \<open>case 'D'\<close>: a last character \<open>%\<close> selects the percent form.\<close>

definition duty_arg :: "'w extern \<Rightarrow> string \<Rightarrow> uint" where
  "duty_arg x optarg =
     (let len = length optarg in
      if len > 0 \<and> optarg ! (len - 1) = CHR ''%'' then
        (let percent = (of_nat (strtoul (ULONG_MAX x) optarg 10) :: uint)
         in PWM_DUTY_PERCENT_FLAG x OR percent)
      else of_nat (strtoul (ULONG_MAX x) optarg 0))"

text \<open>
  The body of the \<open>switch\<close> in \<open>parse_cli_args\<close>, for one result of \<open>getopt_long\<close>: the
  option character with its \<open>optarg\<close>. The state is the global \<open>config\<close>, the events so far
  and the outside world. The first component is \<open>None\<close> where the case ends in \<open>break\<close> and
  the loop goes on, and the way the function is left where it returns or exits.
\<close>

definition switch_opt ::
  "'w extern \<Rightarrow> char \<Rightarrow> string \<Rightarrow> config_t \<times> event list \<times> 'w \<Rightarrow>
     int outcome option \<times> config_t \<times> event list \<times> 'w" where
  "switch_opt x opt optarg s =
     (case s of (c, tr, w) \<Rightarrow>
      if opt = CHR ''?'' then (Some (Returns (- EINVAL)), c, tr, w)
      else if opt = CHR ''h'' then (Some (Exits 0), c, tr @ [Display_usage], w)
      else if opt = CHR ''p'' then
        (None, c\<lparr>chip := of_nat (strtoul (ULONG_MAX x) optarg 0)\<rparr>, tr, w)
      else if opt = CHR ''c'' then
        (None, c\<lparr>channel := of_nat (strtoul (ULONG_MAX x) optarg 0)\<rparr>, tr, w)
      else if opt = CHR ''f'' then
        (None, c\<lparr>frequency_hz := of_nat (strtoul (ULONG_MAX x) optarg 0)\<rparr>, tr, w)
      else if opt = CHR ''d'' then
        (None, c\<lparr>duration_ms := of_nat (strtoul (ULONG_MAX x) optarg 0)\<rparr>, tr, w)
      else if opt = CHR ''D'' then
        (None, c\<lparr>duty_val := duty_arg x optarg\<rparr>, tr, w)
      else if opt = CHR ''s'' then
        (case strdup x optarg w of
           (None, w') \<Rightarrow>
             (Some (Exits (- ENOMEM)), c\<lparr>script := None\<rparr>, tr @ [Print_out_of_memory], w')
         | (Some p, w') \<Rightarrow> (None, c\<lparr>script := Some p\<rparr>, tr, w'))
      else if opt = CHR ''k'' then (None, c\<lparr>keep_enabled := 1\<rparr>, tr, w)
      else if opt = CHR ''V'' then (Some (Exits 0), c, tr @ [Print_version], w)
      else (None, c, tr, w))"

text \<open>
  \<open>parse_cli_args\<close>: the loop over the results of \<open>getopt_long\<close>, up to the \<open>EOF\<close> that
  ends the list. It returns 0 when the options are used up.
\<close>

fun parse_cli_args ::
  "'w extern \<Rightarrow> (char \<times> string) list \<Rightarrow> config_t \<times> event list \<times> 'w \<Rightarrow>
     int outcome \<times> config_t \<times> event list \<times> 'w" where
  "parse_cli_args x [] s = (Returns 0, s)"
| "parse_cli_args x ((opt, optarg) # rest) s =
     (case switch_opt x opt optarg s of
        (Some r, s') \<Rightarrow> (r, s')
      | (None, s') \<Rightarrow> parse_cli_args x rest s')"

subsection \<open>The signal handler and the exit handler\<close>

text \<open>The initialiser of the global \<open>exit_flag\<close>.\<close>

definition exit_flag_init :: int where
  "exit_flag_init = 0"

text \<open>\<open>handle_signal\<close>: the new value of \<open>exit_flag\<close>, given the signal number and the
  old value.\<close>

definition handle_signal :: "int \<Rightarrow> int \<Rightarrow> int" where
  "handle_signal signal exit_flag = 1"

text \<open>\<open>cleanup\<close> frees the script when there is one.\<close>

definition cleanup :: "config_t \<Rightarrow> event list" where
  "cleanup c = (if script c \<noteq> None then [Call_free_script] else [])"

text \<open>
  The life of \<open>exit_flag\<close> over a run. A run is a sequence of steps, each the delivery of a
  signal, which runs \<open>handle_signal\<close>, or a step of the rest of the program. No other
  statement of \<open>main.c\<close> assigns to \<open>exit_flag\<close>, and the interpreter, which is given its
  address, only reads it (the specification's concurrency model): such a step leaves the flag
  as it is.
\<close>

datatype step = Signal_delivered int | Program_step

fun exit_flag_step :: "step \<Rightarrow> int \<Rightarrow> int" where
  "exit_flag_step (Signal_delivered signal) exit_flag = handle_signal signal exit_flag"
| "exit_flag_step Program_step exit_flag = exit_flag"

text \<open>The values the flag takes: the one before the first step, then the one after each
  step.\<close>

fun exit_flag_history :: "int \<Rightarrow> step list \<Rightarrow> int list" where
  "exit_flag_history exit_flag [] = [exit_flag]"
| "exit_flag_history exit_flag (s # ss) =
     exit_flag # exit_flag_history (exit_flag_step s exit_flag) ss"

subsection \<open>The program\<close>

text \<open>The initialiser of \<open>pwm_execute_config\<close> in \<open>main\<close>, and the choice of a default
  script that follows it when \<open>config.script\<close> is the null pointer.\<close>

definition execute_config :: "config_t \<Rightarrow> pwm_execute_config_t" where
  "execute_config c =
     (let pwm_execute_config =
            \<lparr>exec_script = script c,
             default_frequency_hz = frequency_hz c,
             default_duration_ms = duration_ms c,
             default_duty_val = duty_val c,
             stop_flag = Addr_exit_flag\<rparr>
      in if script c = None then
           (if keep_enabled c \<noteq> 0
            then pwm_execute_config\<lparr>exec_script := Some ''fduk''\<rparr>
            else pwm_execute_config\<lparr>exec_script := Some ''fdu''\<rparr>)
         else pwm_execute_config)"

text \<open>
  \<open>main\<close>: the exit code, the events of the whole run and the final outside world, from
  the results of \<open>getopt_long\<close> and the initial outside world. The exit code is the
  argument of \<open>exit\<close> or the value \<open>main\<close> returns. A nonzero result of \<open>parse_cli_args\<close>
  returns \<open>EINVAL\<close> before the exit handler is registered; every later exit runs
  \<open>cleanup\<close>.
\<close>

definition main :: "'w extern \<Rightarrow> (char \<times> string) list \<Rightarrow> 'w \<Rightarrow> int \<times> event list \<times> 'w" where
  "main x argv w =
     (case parse_cli_args x argv (config_init x, [], w) of
        (Exits n, c, tr, w1) \<Rightarrow> (n, tr, w1)
      | (Returns r, c, tr, w1) \<Rightarrow>
          if r \<noteq> 0 then (EINVAL, tr @ [Display_usage], w1)
          else
            (let tr1 = tr @ [Call_atexit_cleanup, Call_signal_SIGINT];
                 (ret, w2) = pwm_open x (chip c) (channel c) (PWM_FLAG_EXPORT x) w1;
                 tr2 = tr1 @ [Call_pwm_open (chip c) (channel c) (PWM_FLAG_EXPORT x)]
             in if ret \<noteq> PWM_E_OK then
                  (ret, tr2 @ [Print_cant_open (channel c) (chip c) ret] @ cleanup c, w2)
                else
                  (let pwm_execute_config = execute_config c;
                       (ret, w3) = pwm_execute x pwm_execute_config w2;
                       w4 = pwm_close x w3
                   in (ret,
                       tr2 @ [Call_pwm_execute pwm_execute_config, Call_pwm_close] @ cleanup c,
                       w4))))"

subsection \<open>An outside world to run the program in\<close>

text \<open>
  A PWM library that only records, in the outside world, what each of its functions is
  given, and answers \<open>pwm_open\<close> and \<open>pwm_execute\<close> with the two statuses chosen. The
  constants of \<open>pwm.h\<close> have sample values (the percent flag is the top bit, the default
  duty 50%), every allocation succeeds, and \<open>unsigned long\<close> has 64 bits.
\<close>

definition recording_extern :: "int \<Rightarrow> int \<Rightarrow> event list extern" where
  "recording_extern open_status execute_status =
     \<lparr>PWM_FLAG_EXPORT = 1,
      PWM_DUTY_PERCENT_FLAG = 0x80000000,
      PWM_DUTY_DEFAULT = 0x80000032,
      pwm_open = (\<lambda>chip channel flags w. (open_status, w @ [Call_pwm_open chip channel flags])),
      pwm_execute = (\<lambda>cfg w. (execute_status, w @ [Call_pwm_execute cfg])),
      pwm_close = (\<lambda>w. w @ [Call_pwm_close]),
      ULONG_MAX = 18446744073709551615,
      alloc = (\<lambda>n w. (True, w))\<rparr>"

section \<open>The core behind \<open>pwm.h\<close>, as the specification describes it\<close>

text \<open>
  \<open>pwm.c\<close> is not among the sources. The Duty Encoder and the Script Interpreter are
  modelled here from the specification, for the claims that are about them.
\<close>

subsection \<open>Errors and duty values\<close>

text \<open>Modelled from the spec: the error kinds of the core (section 7), declared in the
  missing \<open>pwm.h\<close>.\<close>

datatype error =
    DeviceNotFound
  | PermissionDenied
  | IoError string int
  | InvalidDutyRange
  | UnknownCommand char
  | OutOfMemory

text \<open>Modelled from the spec: the \<open>DutyValue\<close> of the data model (section 3), a tagged
  value whose payload is a \<open>u8\<close> either way; the missing core decodes it from the
  \<open>duty_val\<close> bits.\<close>

datatype DutyValue = Raw "8 word" | Percent "8 word"

subsection \<open>The Duty Encoder\<close>

text \<open>
  Modelled from the spec: the Duty Encoder \<open>encode(value, period)\<close> (section 4.1), whose code
  is in the missing \<open>pwm.c\<close>. \<open>Raw(v)\<close> gives \<open>period * v / 255\<close> and \<open>Percent(p)\<close> gives
  \<open>period * p / 100\<close>, truncated; it fails with \<open>InvalidDutyRange\<close> if \<open>v\<close> is 0 or \<open>p\<close> is 0
  or \<open>p > 100\<close>. The period has no stated width, so it is a natural number.
\<close>

fun encode :: "DutyValue \<Rightarrow> nat \<Rightarrow> error + nat" where
  "encode (Raw v) period =
     (if v = 0 then Inl InvalidDutyRange else Inr (period * unat v div 255))"
| "encode (Percent p) period =
     (if p = 0 \<or> 100 < p then Inl InvalidDutyRange else Inr (period * unat p div 100))"

subsection \<open>The Script Interpreter\<close>

text \<open>Modelled from the spec: the operations of the PWM Device Handle that the interpreter
  uses (section 4.2), over a device state \<open>'d\<close>; each fails with an error or gives the new
  state. \<open>current_period\<close> is the period the encoder needs.\<close>

record 'd DeviceHandle =
  set_frequency :: "nat \<Rightarrow> 'd \<Rightarrow> error + 'd"
  set_duty :: "nat \<Rightarrow> 'd \<Rightarrow> error + 'd"
  enable :: "'d \<Rightarrow> error + 'd"
  current_period :: "'d \<Rightarrow> nat"

text \<open>Modelled from the spec: the \<open>ExecutionConfig\<close> of the data model (section 3), without
  its reference to the stop flag, which the interpreter below takes as the values the flag
  shows at each of its checks.\<close>

record ExecutionConfig =
  script_text :: string
  frequency :: nat
  duration :: nat
  duty :: DutyValue

text \<open>Modelled from the spec: the overall status the interpreter returns (section 4.3):
  success, interrupted, or the first failure.\<close>

datatype status = Success | Interrupted | Failed error

text \<open>Modelled from the spec: the wait tick of the \<open>D\<close> step, for which section 9 proposes
  10 ms.\<close>

definition tick_ms :: nat where
  "tick_ms = 10"

text \<open>
  Modelled from the spec: the wait of a \<open>D\<close> step (section 4.3), which checks the stop signal
  at each tick. \<open>stop k\<close> is what the \<open>k\<close>-th check of the stop signal reads; the result
  tells whether the wait was interrupted, and how many checks have been made.
\<close>

fun wait_ticks :: "(nat \<Rightarrow> bool) \<Rightarrow> nat \<Rightarrow> nat \<Rightarrow> bool \<times> nat" where
  "wait_ticks stop 0 k = (False, k)"
| "wait_ticks stop (Suc n) k = (if stop k then (True, k) else wait_ticks stop n (Suc k))"

text \<open>
  Modelled from the spec: the Script Interpreter of the missing \<open>pwm.c\<close> (section 4.3), a
  state machine that consumes one command letter per step, left to right. Before each step
  it checks the stop signal and, if it is set, returns \<open>Interrupted\<close> at once; this check
  comes first whatever is left of the script (section 8: before the first step of any
  script). \<open>f\<close>, \<open>d\<close> and \<open>u\<close> apply the default frequency, the encoded default duty and
  the enable; \<open>D\<close> waits; \<open>k\<close> is skipped; any other letter fails with \<open>UnknownCommand\<close>. A
  failure ends the run with the device as the earlier steps left it. The result is the
  status, the device state and the letters of the commands executed.
\<close>

fun run_script ::
  "'d DeviceHandle \<Rightarrow> ExecutionConfig \<Rightarrow> (nat \<Rightarrow> bool) \<Rightarrow> string \<Rightarrow> nat \<Rightarrow> 'd \<Rightarrow> string \<Rightarrow>
     status \<times> 'd \<times> string" where
  "run_script h cfg stop [] k d done = (if stop k then Interrupted else Success, d, done)"
| "run_script h cfg stop (c # cs) k d done =
     (if stop k then (Interrupted, d, done)
      else if c = CHR ''f'' then
        (case set_frequency h (frequency cfg) d of
           Inl e \<Rightarrow> (Failed e, d, done)
         | Inr d' \<Rightarrow> run_script h cfg stop cs (Suc k) d' (done @ [c]))
      else if c = CHR ''d'' then
        (case encode (duty cfg) (current_period h d) of
           Inl e \<Rightarrow> (Failed e, d, done)
         | Inr v \<Rightarrow>
             (case set_duty h v d of
                Inl e \<Rightarrow> (Failed e, d, done)
              | Inr d' \<Rightarrow> run_script h cfg stop cs (Suc k) d' (done @ [c])))
      else if c = CHR ''u'' then
        (case enable h d of
           Inl e \<Rightarrow> (Failed e, d, done)
         | Inr d' \<Rightarrow> run_script h cfg stop cs (Suc k) d' (done @ [c]))
      else if c = CHR ''D'' then
        (case wait_ticks stop ((duration cfg + tick_ms - 1) div tick_ms) (Suc k) of
           (True, k') \<Rightarrow> (Interrupted, d, done @ [c])
         | (False, k') \<Rightarrow> run_script h cfg stop cs k' d (done @ [c]))
      else if c = CHR ''k'' then run_script h cfg stop cs (Suc k) d done
      else (Failed (UnknownCommand c), d, done))"

text \<open>Modelled from the spec: a run of the interpreter on the script of its configuration,
  from the first check of the stop signal, with no command executed yet.\<close>

definition execute :: "'d DeviceHandle \<Rightarrow> ExecutionConfig \<Rightarrow> (nat \<Rightarrow> bool) \<Rightarrow> 'd \<Rightarrow> status \<times> 'd \<times> string" where
  "execute h cfg stop d = run_script h cfg stop (script_text cfg) 0 d []"

text \<open>A device for running the interpreter on concrete scripts: its state is the list of
  the operations applied, latest last, and its period is fixed.\<close>

datatype device_op = Set_frequency nat | Set_duty nat | Enable

definition logging_device :: "device_op list DeviceHandle" where
  "logging_device =
     \<lparr>set_frequency = (\<lambda>hz d. Inr (d @ [Set_frequency hz])),
      set_duty = (\<lambda>v d. Inr (d @ [Set_duty v])),
      enable = (\<lambda>d. Inr (d @ [Enable])),
      current_period = (\<lambda>d. 1000000)\<rparr>"

section \<open>Properties of the front-end\<close>

subsection \<open>One option at a time\<close>

text \<open>What a step of the \<open>switch\<close> leaves behind, by the way it ends.\<close>

lemma switch_opt_None:
  assumes "switch_opt x opt a (c0, tr0, w0) = (None, c, tr, w)"
  shows "tr = tr0" and "opt \<noteq> CHR ''?''" and "opt \<noteq> CHR ''h''" and "opt \<noteq> CHR ''V''"
    and "script c = (if opt = CHR ''s'' then Some a else script c0)"
    and "keep_enabled c = (if opt = CHR ''k'' then 1 else keep_enabled c0)"
  using assms
  by (auto simp: switch_opt_def strdup_def split: if_splits prod.splits)

lemma switch_opt_Returns:
  assumes "switch_opt x opt a (c0, tr0, w0) = (Some (Returns r), c, tr, w)"
  shows "opt = CHR ''?'' \<and> r = - EINVAL \<and> c = c0 \<and> tr = tr0 \<and> w = w0"
  using assms
  by (auto simp: switch_opt_def strdup_def split: if_splits prod.splits)

lemma switch_opt_Exits:
  assumes "switch_opt x opt a (c0, tr0, w0) = (Some (Exits n), c, tr, w)"
  shows "(n = 0 \<and> tr = tr0 @ [Display_usage]) \<or> (n = 0 \<and> tr = tr0 @ [Print_version]) \<or>
         (n = - ENOMEM \<and> tr = tr0 @ [Print_out_of_memory])"
  using assms
  by (auto simp: switch_opt_def strdup_def split: if_splits prod.splits)

lemma switch_opt_invalid:
  "switch_opt x (CHR ''?'') a (c, tr, w) = (Some (Returns (- EINVAL)), c, tr, w)"
  by (simp add: switch_opt_def)

lemma parse_returns:
  "parse_cli_args x argv (c0, tr0, w0) = (Returns r, c, tr, w1) \<Longrightarrow>
     tr = tr0 \<and> (r = 0 \<or> r = - EINVAL) \<and> (r = 0 \<longleftrightarrow> CHR ''?'' \<notin> fst ` set argv)"
proof (induction argv arbitrary: c0 tr0 w0)
  case Nil
  then show ?case by simp
next
  case (Cons p rest)
  obtain opt a where p: "p = (opt, a)" by (cases p)
  obtain o' c' tr' w' where sw: "switch_opt x opt a (c0, tr0, w0) = (o', c', tr', w')"
    by (cases "switch_opt x opt a (c0, tr0, w0)")
  show ?case
  proof (cases o')
    case None
    with Cons.prems p sw have "parse_cli_args x rest (c', tr', w') = (Returns r, c, tr, w1)"
      by simp
    from Cons.IH [OF this] switch_opt_None(1,2) [OF sw [unfolded None]] p
    show ?thesis by auto
  next
    case (Some res)
    with Cons.prems p sw have res: "res = Returns r" and "tr = tr'"
      by simp_all
    with switch_opt_Returns [OF sw [unfolded Some res]] p
    show ?thesis by (auto simp: EINVAL_def)
  qed
qed

lemma parse_returns_0:
  "parse_cli_args x argv (c0, tr0, w0) = (Returns 0, c, tr, w1) \<Longrightarrow>
     CHR ''h'' \<notin> fst ` set argv \<and> CHR ''V'' \<notin> fst ` set argv \<and>
     script c = (if filter (\<lambda>p. fst p = CHR ''s'') argv = [] then script c0
                 else Some (snd (last (filter (\<lambda>p. fst p = CHR ''s'') argv)))) \<and>
     keep_enabled c = (if CHR ''k'' \<in> fst ` set argv then 1 else keep_enabled c0)"
proof (induction argv arbitrary: c0 tr0 w0)
  case Nil
  then show ?case by simp
next
  case (Cons p rest)
  obtain opt a where p: "p = (opt, a)" by (cases p)
  obtain o' c' tr' w' where sw: "switch_opt x opt a (c0, tr0, w0) = (o', c', tr', w')"
    by (cases "switch_opt x opt a (c0, tr0, w0)")
  show ?case
  proof (cases o')
    case None
    with Cons.prems p sw have "parse_cli_args x rest (c', tr', w') = (Returns 0, c, tr, w1)"
      by simp
    from Cons.IH [OF this] switch_opt_None [OF sw [unfolded None]] p
    show ?thesis by auto
  next
    case (Some res)
    with Cons.prems p sw have res: "res = Returns 0"
      by simp
    with switch_opt_Returns [OF sw [unfolded Some res]]
    show ?thesis by (simp add: EINVAL_def)
  qed
qed

lemma parse_exits:
  "parse_cli_args x argv (c0, tr0, w0) = (Exits n, c, tr, w1) \<Longrightarrow>
     (n = 0 \<and> tr = tr0 @ [Display_usage]) \<or> (n = 0 \<and> tr = tr0 @ [Print_version]) \<or>
     (n = - ENOMEM \<and> tr = tr0 @ [Print_out_of_memory])"
proof (induction argv arbitrary: c0 tr0 w0)
  case Nil
  then show ?case by simp
next
  case (Cons p rest)
  obtain opt a where p: "p = (opt, a)" by (cases p)
  obtain o' c' tr' w' where sw: "switch_opt x opt a (c0, tr0, w0) = (o', c', tr', w')"
    by (cases "switch_opt x opt a (c0, tr0, w0)")
  show ?case
  proof (cases o')
    case None
    with Cons.prems p sw have "parse_cli_args x rest (c', tr', w') = (Exits n, c, tr, w1)"
      by simp
    from Cons.IH [OF this] switch_opt_None(1) [OF sw [unfolded None]]
    show ?thesis by simp
  next
    case (Some res)
    with Cons.prems p sw have res: "res = Exits n" and "tr = tr'"
      by simp_all
    with switch_opt_Exits [OF sw [unfolded Some res]]
    show ?thesis by simp
  qed
qed

subsection \<open>The four ways a run can go\<close>

text \<open>
  A run ends inside \<open>parse_cli_args\<close> (help, version, out of memory), or on an invalid
  option, or on a channel that does not open, or it goes through the interpreter.
\<close>

lemma main_cases [consumes 0, case_names exits invalid open_fails runs]:
  obtains
    (exits) n c tr w1 where
      "parse_cli_args x argv (config_init x, [], w) = (Exits n, c, tr, w1)"
      "main x argv w = (n, tr, w1)"
      "(n = 0 \<and> tr = [Display_usage]) \<or> (n = 0 \<and> tr = [Print_version]) \<or>
       (n = - ENOMEM \<and> tr = [Print_out_of_memory])"
  | (invalid) c w1 where
      "parse_cli_args x argv (config_init x, [], w) = (Returns (- EINVAL), c, [], w1)"
      "CHR ''?'' \<in> fst ` set argv"
      "main x argv w = (EINVAL, [Display_usage], w1)"
  | (open_fails) c w1 ret w2 where
      "parse_cli_args x argv (config_init x, [], w) = (Returns 0, c, [], w1)"
      "CHR ''?'' \<notin> fst ` set argv"
      "pwm_open x (chip c) (channel c) (PWM_FLAG_EXPORT x) w1 = (ret, w2)"
      "ret \<noteq> PWM_E_OK"
      "main x argv w =
         (ret, [Call_atexit_cleanup, Call_signal_SIGINT,
                Call_pwm_open (chip c) (channel c) (PWM_FLAG_EXPORT x),
                Print_cant_open (channel c) (chip c) ret] @ cleanup c, w2)"
  | (runs) c w1 w2 where
      "parse_cli_args x argv (config_init x, [], w) = (Returns 0, c, [], w1)"
      "CHR ''?'' \<notin> fst ` set argv"
      "pwm_open x (chip c) (channel c) (PWM_FLAG_EXPORT x) w1 = (PWM_E_OK, w2)"
      "main x argv w =
         (fst (pwm_execute x (execute_config c) w2),
          [Call_atexit_cleanup, Call_signal_SIGINT,
           Call_pwm_open (chip c) (channel c) (PWM_FLAG_EXPORT x),
           Call_pwm_execute (execute_config c), Call_pwm_close] @ cleanup c,
          pwm_close x (snd (pwm_execute x (execute_config c) w2)))"
proof -
  obtain res c tr w1 where
    parse: "parse_cli_args x argv (config_init x, [], w) = (res, c, tr, w1)"
    by (cases "parse_cli_args x argv (config_init x, [], w)")
  show thesis
  proof (cases res)
    case (Exits n)
    from parse_exits [OF parse [unfolded Exits]] parse Exits exits [of n c tr w1]
    show thesis by (simp add: main_def)
  next
    case (Returns r)
    note ret = parse_returns [OF parse [unfolded Returns]]
    show thesis
    proof (cases "r = 0")
      case False
      with ret parse Returns invalid [of c w1]
      show thesis by (simp add: main_def)
    next
      case True
      obtain st w2 where op: "pwm_open x (chip c) (channel c) (PWM_FLAG_EXPORT x) w1 = (st, w2)"
        by (cases "pwm_open x (chip c) (channel c) (PWM_FLAG_EXPORT x) w1")
      show thesis
      proof (cases "st = PWM_E_OK")
        case False
        with True ret parse Returns op open_fails [of c w1 st w2]
        show thesis by (simp add: main_def)
      next
        case ok: True
        with True ret parse Returns op runs [of c w1 w2]
        show thesis by (simp add: main_def Let_def split: prod.splits)
      qed
    qed
  qed
qed

lemma cleanup_cases: "cleanup c = [] \<or> cleanup c = [Call_free_script]"
  by (simp add: cleanup_def)

lemma exec_script_execute_config:
  "exec_script (execute_config c) =
     (case script c of
        None \<Rightarrow> Some (if keep_enabled c \<noteq> 0 then ''fduk'' else ''fdu'')
      | Some s \<Rightarrow> Some s)"
  by (simp add: execute_config_def Let_def split: option.splits)

text \<open>Unfolding the program on a concrete command line.\<close>

lemmas run_defs = main_def recording_extern_def switch_opt_def config_init_def strdup_def
  execute_config_def Let_def cleanup_def PWM_E_OK_def EINVAL_def ENOMEM_def DEFAULT_PWM_CHIP_def
  DEFAULT_PWM_CHANNEL_def DEFAULT_PWM_FREQUENCY_HZ_def DEFAULT_PWM_DURATION_MS_def

lemmas strtoul_defs = strtoul_def isspace_def digit_val_def

subsection \<open>The script handed to the interpreter\<close>

text \<open>
  C1. Whenever the program invokes the interpreter it does so once, and the script it passes
  is: the argument of the last \<open>-s\<close> option, unchanged, when there is one; otherwise
  \<open>"fduk"\<close> when \<open>-k\<close> set the \<open>keep_enabled\<close> flag and \<open>"fdu"\<close> when it did not.
\<close>

theorem default_script_selection:
  assumes "main x argv w = (code, tr, w')"
      and "Call_pwm_execute e \<in> set tr"
  shows "[e'. Call_pwm_execute e' \<leftarrow> tr] = [e] \<and>
         exec_script e =
           (if filter (\<lambda>p. fst p = CHR ''s'') argv = []
            then Some (if CHR ''k'' \<in> fst ` set argv then ''fduk'' else ''fdu'')
            else Some (snd (last (filter (\<lambda>p. fst p = CHR ''s'') argv))))"
proof (cases rule: main_cases [of x argv w])
  case (exits n c tr1 w1)
  with assms show ?thesis by auto
next
  case (invalid c w1)
  with assms show ?thesis by auto
next
  case (open_fails c w1 ret w2)
  with assms cleanup_cases [of c] show ?thesis by auto
next
  case (runs c w1 w2)
  from runs(4) assms cleanup_cases [of c]
  have e: "e = execute_config c" and "[e'. Call_pwm_execute e' \<leftarrow> tr] = [e]"
    by auto
  moreover from parse_returns_0 [OF runs(1)]
  have "script c = (if filter (\<lambda>p. fst p = CHR ''s'') argv = [] then None
                    else Some (snd (last (filter (\<lambda>p. fst p = CHR ''s'') argv))))"
    and "keep_enabled c = (if CHR ''k'' \<in> fst ` set argv then 1 else 0)"
    by (simp_all add: config_init_def)
  ultimately show ?thesis
    by (simp add: exec_script_execute_config)
qed

theorem default_script_selection_witness:
  "Call_pwm_execute
     \<lparr>exec_script = Some ''fduk'', default_frequency_hz = 1000, default_duration_ms = 250,
      default_duty_val = 0x80000032, stop_flag = Addr_exit_flag\<rparr>
     \<in> set (fst (snd (main (recording_extern 0 0) [(CHR ''k'', [])] []))) \<and>
   main (recording_extern 0 0) [(CHR ''k'', [])] [] =
     (0,
      [Call_atexit_cleanup, Call_signal_SIGINT, Call_pwm_open 0 0 1,
       Call_pwm_execute
         \<lparr>exec_script = Some ''fduk'', default_frequency_hz = 1000, default_duration_ms = 250,
          default_duty_val = 0x80000032, stop_flag = Addr_exit_flag\<rparr>,
       Call_pwm_close],
      [Call_pwm_open 0 0 1,
       Call_pwm_execute
         \<lparr>exec_script = Some ''fduk'', default_frequency_hz = 1000, default_duration_ms = 250,
          default_duty_val = 0x80000032, stop_flag = Addr_exit_flag\<rparr>,
       Call_pwm_close]) \<and>
   exec_script
     \<lparr>exec_script = Some ''fduk'', default_frequency_hz = 1000, default_duration_ms = 250,
      default_duty_val = 0x80000032, stop_flag = Addr_exit_flag\<rparr> =
     (if filter (\<lambda>p. fst p = CHR ''s'') [(CHR ''k'', [])] = []
      then Some (if CHR ''k'' \<in> fst ` set [(CHR ''k'', [])] then ''fduk'' else ''fdu'')
      else Some (snd (last (filter (\<lambda>p. fst p = CHR ''s'') [(CHR ''k'', [])]))))"
proof -
  let ?e = "\<lparr>exec_script = Some ''fduk'', default_frequency_hz = 1000,
             default_duration_ms = 250, default_duty_val = 0x80000032,
             stop_flag = Addr_exit_flag\<rparr>"
  have run: "main (recording_extern 0 0) [(CHR ''k'', [])] [] =
     (0, [Call_atexit_cleanup, Call_signal_SIGINT, Call_pwm_open 0 0 1,
          Call_pwm_execute ?e, Call_pwm_close],
      [Call_pwm_open 0 0 1, Call_pwm_execute ?e, Call_pwm_close])"
    by (simp add: run_defs)
  from default_script_selection [OF run, of ?e] run
  show ?thesis by simp
qed

subsection \<open>Exit codes\<close>

text \<open>
  C3. In a run whose options parse, the exit code depends on the status of \<open>pwm_open\<close>.
  When it is \<open>PWM_E_OK\<close> the interpreter is invoked once and the exit code is the status it
  returns, so 0 exactly when it reports success. When it is anything else, the exit code is
  that status and the interpreter is never invoked.
\<close>

theorem exit_code_of_run:
  assumes "main x argv w = (code, tr, w')"
      and "parse_cli_args x argv (config_init x, [], w) = (Returns 0, c, tr0, w1)"
      and "pwm_open x (chip c) (channel c) (PWM_FLAG_EXPORT x) w1 = (ret, w2)"
  shows "(if ret = PWM_E_OK
          then [e. Call_pwm_execute e \<leftarrow> tr] = [execute_config c] \<and>
               code = fst (pwm_execute x (execute_config c) w2) \<and>
               (code = 0 \<longleftrightarrow> fst (pwm_execute x (execute_config c) w2) = PWM_E_OK)
          else code = ret \<and> [e. Call_pwm_execute e \<leftarrow> tr] = [])"
proof (cases rule: main_cases [of x argv w])
  case (exits n c tr1 w1)
  with assms show ?thesis by simp
next
  case (invalid c w1)
  with assms show ?thesis by (simp add: EINVAL_def)
next
  case (open_fails c' w1' ret' w2')
  with assms cleanup_cases [of c] show ?thesis by auto
next
  case (runs c' w1' w2')
  with assms cleanup_cases [of c] show ?thesis by (auto simp: PWM_E_OK_def)
qed

theorem exit_code_of_run_witness:
  "main (recording_extern 0 5) [(CHR ''f'', ''440'')] [] =
     (5,
      [Call_atexit_cleanup, Call_signal_SIGINT, Call_pwm_open 0 0 1,
       Call_pwm_execute
         \<lparr>exec_script = Some ''fdu'', default_frequency_hz = 440, default_duration_ms = 250,
          default_duty_val = 0x80000032, stop_flag = Addr_exit_flag\<rparr>,
       Call_pwm_close],
      [Call_pwm_open 0 0 1,
       Call_pwm_execute
         \<lparr>exec_script = Some ''fdu'', default_frequency_hz = 440, default_duration_ms = 250,
          default_duty_val = 0x80000032, stop_flag = Addr_exit_flag\<rparr>,
       Call_pwm_close]) \<and>
   parse_cli_args (recording_extern 0 5) [(CHR ''f'', ''440'')]
       (config_init (recording_extern 0 5), [], []) =
     (Returns 0,
      \<lparr>chip = 0, channel = 0, frequency_hz = 440, duration_ms = 250, duty_val = 0x80000032,
       keep_enabled = 0, script = None\<rparr>, [], []) \<and>
   pwm_open (recording_extern 0 5) 0 0 1 [] = (PWM_E_OK, [Call_pwm_open 0 0 1]) \<and>
   (5::int) =
     fst (pwm_execute (recording_extern 0 5)
            (execute_config
               \<lparr>chip = 0, channel = 0, frequency_hz = 440, duration_ms = 250,
                duty_val = 0x80000032, keep_enabled = 0, script = None\<rparr>)
            [Call_pwm_open 0 0 1]) \<and>
   (5::int) \<noteq> 0"
proof -
  let ?x = "recording_extern 0 5"
  let ?c = "\<lparr>chip = 0, channel = 0, frequency_hz = 440, duration_ms = 250,
             duty_val = 0x80000032, keep_enabled = 0, script = None\<rparr>"
  let ?e = "\<lparr>exec_script = Some ''fdu'', default_frequency_hz = 440, default_duration_ms = 250,
             default_duty_val = 0x80000032, stop_flag = Addr_exit_flag\<rparr>"
  have run: "main ?x [(CHR ''f'', ''440'')] [] =
     (5, [Call_atexit_cleanup, Call_signal_SIGINT, Call_pwm_open 0 0 1,
          Call_pwm_execute ?e, Call_pwm_close],
      [Call_pwm_open 0 0 1, Call_pwm_execute ?e, Call_pwm_close])"
    by (simp add: run_defs strtoul_defs)
  have parse: "parse_cli_args ?x [(CHR ''f'', ''440'')] (config_init ?x, [], []) =
     (Returns 0, ?c, [], [])"
    by (simp add: run_defs strtoul_defs)
  have opened: "pwm_open ?x (chip ?c) (channel ?c) (PWM_FLAG_EXPORT ?x) [] =
     (PWM_E_OK, [Call_pwm_open 0 0 1])"
    by (simp add: run_defs)
  from exit_code_of_run [OF run parse opened] run parse opened
  show ?thesis by (simp add: recording_extern_def)
qed

subsection \<open>The sequence of a run\<close>

text \<open>
  With no options at all the arguments are valid, yet when the channel does not open the
  run ends after \<open>pwm_open\<close>: the interpreter is not invoked, \<open>pwm_close\<close> is not called,
  and the exit code is the status of \<open>pwm_open\<close>.
\<close>

theorem run_sequence_counterexample:
  "main (recording_extern 13 0) [] [] =
     (13,
      [Call_atexit_cleanup, Call_signal_SIGINT, Call_pwm_open 0 0 1, Print_cant_open 0 0 13],
      [Call_pwm_open 0 0 1]) \<and>
   Call_pwm_close \<notin>
     set [Call_atexit_cleanup, Call_signal_SIGINT, Call_pwm_open 0 0 1, Print_cant_open 0 0 13]"
  by (simp add: run_defs)

text \<open>
  C4, amended. In every run whose options parse (none is invalid, none is \<open>--help\<close> or
  \<open>--version\<close>, no copy of a script runs out of memory) and whose \<open>pwm_open\<close> returns
  \<open>PWM_E_OK\<close>, the program performs exactly this sequence: it builds the configuration from
  the parsed options, opens the channel, invokes the interpreter with that configuration,
  calls \<open>pwm_close\<close> whatever status the interpreter returned, and exits with that status.
\<close>

theorem run_sequence:
  assumes "parse_cli_args x argv (config_init x, [], w) = (Returns 0, c, tr0, w1)"
      and "pwm_open x (chip c) (channel c) (PWM_FLAG_EXPORT x) w1 = (PWM_E_OK, w2)"
      and "pwm_execute x (execute_config c) w2 = (status, w3)"
  shows "main x argv w =
           (status,
            [Call_atexit_cleanup, Call_signal_SIGINT,
             Call_pwm_open (chip c) (channel c) (PWM_FLAG_EXPORT x),
             Call_pwm_execute (execute_config c), Call_pwm_close] @ cleanup c,
            pwm_close x w3) \<and>
         default_frequency_hz (execute_config c) = frequency_hz c \<and>
         default_duration_ms (execute_config c) = duration_ms c \<and>
         default_duty_val (execute_config c) = duty_val c \<and>
         stop_flag (execute_config c) = Addr_exit_flag \<and>
         exec_script (execute_config c) =
           (case script c of
              None \<Rightarrow> Some (if keep_enabled c \<noteq> 0 then ''fduk'' else ''fdu'')
            | Some s \<Rightarrow> Some s)"
proof (cases rule: main_cases [of x argv w])
  case (exits n c tr1 w1)
  with assms show ?thesis by simp
next
  case (invalid c w1)
  with assms show ?thesis by (simp add: EINVAL_def)
next
  case (open_fails c' w1' ret' w2')
  with assms show ?thesis by simp
next
  case (runs c' w1' w2')
  with assms show ?thesis
    by (simp add: exec_script_execute_config) (simp add: execute_config_def Let_def)
qed

theorem run_sequence_witness:
  "parse_cli_args (recording_extern 0 7) [(CHR ''s'', ''fDx''), (CHR ''k'', [])]
       (config_init (recording_extern 0 7), [], []) =
     (Returns 0,
      \<lparr>chip = 0, channel = 0, frequency_hz = 1000, duration_ms = 250, duty_val = 0x80000032,
       keep_enabled = 1, script = Some ''fDx''\<rparr>, [], []) \<and>
   pwm_open (recording_extern 0 7) 0 0 1 [] = (PWM_E_OK, [Call_pwm_open 0 0 1]) \<and>
   main (recording_extern 0 7) [(CHR ''s'', ''fDx''), (CHR ''k'', [])] [] =
     (7,
      [Call_atexit_cleanup, Call_signal_SIGINT, Call_pwm_open 0 0 1,
       Call_pwm_execute
         \<lparr>exec_script = Some ''fDx'', default_frequency_hz = 1000, default_duration_ms = 250,
          default_duty_val = 0x80000032, stop_flag = Addr_exit_flag\<rparr>,
       Call_pwm_close, Call_free_script],
      [Call_pwm_open 0 0 1,
       Call_pwm_execute
         \<lparr>exec_script = Some ''fDx'', default_frequency_hz = 1000, default_duration_ms = 250,
          default_duty_val = 0x80000032, stop_flag = Addr_exit_flag\<rparr>,
       Call_pwm_close])"
proof -
  let ?x = "recording_extern 0 7"
  let ?argv = "[(CHR ''s'', ''fDx''), (CHR ''k'', [])]"
  let ?c = "\<lparr>chip = 0, channel = 0, frequency_hz = 1000, duration_ms = 250,
             duty_val = 0x80000032, keep_enabled = 1, script = Some ''fDx''\<rparr>"
  let ?e = "\<lparr>exec_script = Some ''fDx'', default_frequency_hz = 1000,
             default_duration_ms = 250, default_duty_val = 0x80000032,
             stop_flag = Addr_exit_flag\<rparr>"
  have parse: "parse_cli_args ?x ?argv (config_init ?x, [], []) = (Returns 0, ?c, [], [])"
    by (simp add: run_defs)
  have opened: "pwm_open ?x (chip ?c) (channel ?c) (PWM_FLAG_EXPORT ?x) [] =
     (PWM_E_OK, [Call_pwm_open 0 0 1])"
    by (simp add: run_defs)
  have executed: "pwm_execute ?x (execute_config ?c) [Call_pwm_open 0 0 1] =
     (7, [Call_pwm_open 0 0 1, Call_pwm_execute ?e])"
    by (simp add: run_defs)
  from run_sequence [OF parse opened executed] parse opened
  show ?thesis by (simp add: run_defs)
qed

subsection \<open>Invalid options\<close>

text \<open>
  An invalid option that follows \<open>--version\<close> is never reached: the program prints the
  version, not the usage text, and exits with 0, not with \<open>EINVAL\<close>.
\<close>

theorem invalid_option_counterexample:
  "main (recording_extern 0 0) [(CHR ''V'', []), (CHR ''?'', [])] [] = (0, [Print_version], []) \<and>
   CHR ''?'' \<in> fst ` set [(CHR ''V'', []), (CHR ''?'', [])] \<and>
   (0::int) \<noteq> EINVAL \<and> [Print_version] \<noteq> [Display_usage]"
  by (simp add: run_defs)

lemma switch_opt_goes_on_or_fails:
  assumes "opt \<noteq> CHR ''?''" "opt \<noteq> CHR ''h''" "opt \<noteq> CHR ''V''"
  shows "(\<exists>c w. switch_opt x opt a (c0, tr0, w0) = (None, c, tr0, w)) \<or>
         (\<exists>c w. switch_opt x opt a (c0, tr0, w0) =
                  (Some (Exits (- ENOMEM)), c, tr0 @ [Print_out_of_memory], w))"
proof (cases "opt = CHR ''s''")
  case True
  obtain ok w1 where "alloc x (length a + 1) w0 = (ok, w1)"
    by (cases "alloc x (length a + 1) w0")
  with True show ?thesis
    by (cases ok) (simp_all add: switch_opt_def strdup_def)
next
  case False
  with assms show ?thesis
    by (simp add: switch_opt_def)
qed

lemma parse_reaches_invalid_or_fails:
  assumes "CHR ''?'' \<notin> fst ` set pre" "CHR ''h'' \<notin> fst ` set pre" "CHR ''V'' \<notin> fst ` set pre"
  shows "(\<exists>c w. parse_cli_args x (pre @ (CHR ''?'', a) # post) (c0, tr0, w0) =
                  (Returns (- EINVAL), c, tr0, w)) \<or>
         (\<exists>c w. parse_cli_args x (pre @ (CHR ''?'', a) # post) (c0, tr0, w0) =
                  (Exits (- ENOMEM), c, tr0 @ [Print_out_of_memory], w))"
  using assms
proof (induction pre arbitrary: c0 w0)
  case Nil
  then show ?case by (simp add: switch_opt_invalid)
next
  case (Cons p pre)
  obtain opt b where p: "p = (opt, b)" by (cases p)
  from Cons.prems p have opt: "opt \<noteq> CHR ''?''" "opt \<noteq> CHR ''h''" "opt \<noteq> CHR ''V''"
    by auto
  from Cons.prems have pre: "CHR ''?'' \<notin> fst ` set pre" "CHR ''h'' \<notin> fst ` set pre"
    "CHR ''V'' \<notin> fst ` set pre"
    by auto
  from switch_opt_goes_on_or_fails [OF opt, of x b c0 tr0 w0]
  show ?case
  proof
    assume "\<exists>c w. switch_opt x opt b (c0, tr0, w0) = (None, c, tr0, w)"
    then obtain c1 w1 where sw: "switch_opt x opt b (c0, tr0, w0) = (None, c1, tr0, w1)"
      by blast
    from Cons.IH [OF pre, of c1 w1] sw p show ?thesis
      by simp
  next
    assume "\<exists>c w. switch_opt x opt b (c0, tr0, w0) =
                  (Some (Exits (- ENOMEM)), c, tr0 @ [Print_out_of_memory], w)"
    with p show ?thesis
      by auto
  qed
qed

lemma parse_returns_no_exit_before:
  "parse_cli_args x argv (c0, tr0, w0) = (Returns r, c, tr, w1) \<Longrightarrow>
     CHR ''h'' \<notin> fst ` set (takeWhile (\<lambda>p. fst p \<noteq> CHR ''?'') argv) \<and>
     CHR ''V'' \<notin> fst ` set (takeWhile (\<lambda>p. fst p \<noteq> CHR ''?'') argv)"
proof (induction argv arbitrary: c0 tr0 w0)
  case Nil
  then show ?case by simp
next
  case (Cons p rest)
  obtain opt a where p: "p = (opt, a)" by (cases p)
  obtain o' c' tr' w' where sw: "switch_opt x opt a (c0, tr0, w0) = (o', c', tr', w')"
    by (cases "switch_opt x opt a (c0, tr0, w0)")
  show ?case
  proof (cases o')
    case None
    with Cons.prems p sw have "parse_cli_args x rest (c', tr', w') = (Returns r, c, tr, w1)"
      by simp
    from Cons.IH [OF this] switch_opt_None(2,3,4) [OF sw [unfolded None]] p
    show ?thesis by simp
  next
    case (Some res)
    with Cons.prems p sw have res: "res = Returns r"
      by simp
    with switch_opt_Returns [OF sw [unfolded Some res]] p
    show ?thesis by simp
  qed
qed

text \<open>
  C10, amended. For every argument vector with an option that \<open>getopt_long\<close> reports as
  invalid, the program never opens the PWM channel and never invokes the interpreter: it
  prints one message and exits. The message is the usage text and the exit code \<open>EINVAL\<close>
  exactly when no \<open>--help\<close> or \<open>--version\<close> option comes before the first invalid option
  and no copy of a \<open>--script\<close> argument runs out of memory; otherwise the run ends at that
  earlier option, with exit code 0 or \<open>-ENOMEM\<close>.
\<close>

theorem invalid_option:
  assumes "main x argv w = (code, tr, w')"
      and "CHR ''?'' \<in> fst ` set argv"
  shows "((code = EINVAL \<and> tr = [Display_usage]) \<or> (code = 0 \<and> tr = [Display_usage]) \<or>
          (code = 0 \<and> tr = [Print_version]) \<or>
          (code = - ENOMEM \<and> tr = [Print_out_of_memory])) \<and>
         ((code = EINVAL \<and> tr = [Display_usage]) \<longleftrightarrow>
          (CHR ''h'' \<notin> fst ` set (takeWhile (\<lambda>p. fst p \<noteq> CHR ''?'') argv) \<and>
           CHR ''V'' \<notin> fst ` set (takeWhile (\<lambda>p. fst p \<noteq> CHR ''?'') argv) \<and>
           tr \<noteq> [Print_out_of_memory]))"
proof -
  let ?pre = "takeWhile (\<lambda>p. fst p \<noteq> CHR ''?'') argv"
  have outcome: "(code = EINVAL \<and> tr = [Display_usage]) \<or> (code = 0 \<and> tr = [Display_usage]) \<or>
          (code = 0 \<and> tr = [Print_version]) \<or>
          (code = - ENOMEM \<and> tr = [Print_out_of_memory])"
  proof (cases rule: main_cases [of x argv w])
    case (exits n c tr1 w1)
    with assms show ?thesis by auto
  next
    case (invalid c w1)
    with assms show ?thesis by simp
  next
    case (open_fails c w1 ret w2)
    with assms show ?thesis by simp
  next
    case (runs c w1 w2)
    with assms show ?thesis by simp
  qed
  have reached: "code = EINVAL \<and> tr = [Display_usage]"
    if pre: "CHR ''h'' \<notin> fst ` set ?pre" "CHR ''V'' \<notin> fst ` set ?pre"
      and copied: "tr \<noteq> [Print_out_of_memory]"
  proof -
    from assms(2) have "dropWhile (\<lambda>p. fst p \<noteq> CHR ''?'') argv \<noteq> []"
      by force
    then obtain q post where dw: "dropWhile (\<lambda>p. fst p \<noteq> CHR ''?'') argv = q # post"
      by (cases "dropWhile (\<lambda>p. fst p \<noteq> CHR ''?'') argv") auto
    from hd_dropWhile [of "\<lambda>p. fst p \<noteq> CHR ''?''" argv] dw
    have "fst q = CHR ''?''" by simp
    then obtain a where q: "q = (CHR ''?'', a)" by (cases q) simp
    have split: "argv = ?pre @ (CHR ''?'', a) # post"
      using takeWhile_dropWhile_id [of "\<lambda>p. fst p \<noteq> CHR ''?''" argv] dw q by simp
    have "CHR ''?'' \<notin> fst ` set ?pre"
      by (auto dest: set_takeWhileD)
    from parse_reaches_invalid_or_fails [OF this pre, of x a post "config_init x" "[]" w]
    show ?thesis
    proof
      assume "\<exists>c w1. parse_cli_args x (?pre @ (CHR ''?'', a) # post) (config_init x, [], w) =
                  (Returns (- EINVAL), c, [], w1)"
      then obtain c w1 where
        "parse_cli_args x (?pre @ (CHR ''?'', a) # post) (config_init x, [], w) =
           (Returns (- EINVAL), c, [], w1)"
        by blast
      with split have "parse_cli_args x argv (config_init x, [], w) =
          (Returns (- EINVAL), c, [], w1)"
        by simp
      with assms(1) show ?thesis
        by (simp add: main_def EINVAL_def)
    next
      assume "\<exists>c w1. parse_cli_args x (?pre @ (CHR ''?'', a) # post) (config_init x, [], w) =
                  (Exits (- ENOMEM), c, [] @ [Print_out_of_memory], w1)"
      then obtain c w1 where
        "parse_cli_args x (?pre @ (CHR ''?'', a) # post) (config_init x, [], w) =
           (Exits (- ENOMEM), c, [] @ [Print_out_of_memory], w1)"
        by blast
      with split have "parse_cli_args x argv (config_init x, [], w) =
          (Exits (- ENOMEM), c, [Print_out_of_memory], w1)"
        by simp
      with assms(1) copied show ?thesis
        by (simp add: main_def)
    qed
  qed
  have before: "CHR ''h'' \<notin> fst ` set ?pre \<and> CHR ''V'' \<notin> fst ` set ?pre \<and>
      tr \<noteq> [Print_out_of_memory]"
    if einval: "code = EINVAL \<and> tr = [Display_usage]"
  proof (cases rule: main_cases [of x argv w])
    case (exits n c tr1 w1)
    with assms einval show ?thesis by (auto simp: EINVAL_def ENOMEM_def)
  next
    case (invalid c w1)
    from parse_returns_no_exit_before [OF invalid(1)] einval show ?thesis
      by simp
  next
    case (open_fails c w1 ret w2)
    with assms show ?thesis by simp
  next
    case (runs c w1 w2)
    with assms show ?thesis by simp
  qed
  from outcome reached before show ?thesis by blast
qed

theorem invalid_option_witness:
  "main (recording_extern 0 0)
     [(CHR ''k'', []), (CHR ''s'', ''fdu''), (CHR ''?'', []), (CHR ''h'', [])] [] =
     (EINVAL, [Display_usage], []) \<and>
   CHR ''?'' \<in> fst ` set [(CHR ''k'', []), (CHR ''s'', ''fdu''), (CHR ''?'', []), (CHR ''h'', [])] \<and>
   CHR ''h'' \<notin> fst ` set (takeWhile (\<lambda>p. fst p \<noteq> CHR ''?'')
       [(CHR ''k'', []), (CHR ''s'', ''fdu''), (CHR ''?'', []), (CHR ''h'', [])]) \<and>
   CHR ''V'' \<notin> fst ` set (takeWhile (\<lambda>p. fst p \<noteq> CHR ''?'')
       [(CHR ''k'', []), (CHR ''s'', ''fdu''), (CHR ''?'', []), (CHR ''h'', [])]) \<and>
   [Display_usage] \<noteq> [Print_out_of_memory]"
proof -
  let ?argv = "[(CHR ''k'', []), (CHR ''s'', ''fdu''), (CHR ''?'', []), (CHR ''h'', [])]"
  have run: "main (recording_extern 0 0) ?argv [] = (EINVAL, [Display_usage], [])"
    by (simp add: run_defs)
  have inv: "CHR ''?'' \<in> fst ` set ?argv"
    by simp
  from invalid_option [OF run inv] run
  show ?thesis by simp
qed

subsection \<open>What the \<open>keep_enabled\<close> flag reaches\<close>









subsection \<open>The duty option\<close>

text \<open>Which characters are digits of which base, and what \<open>strtoul\<close> makes of a run of
  them.\<close>

lemma dec_digit:
  assumes "c \<in> set ''0123456789''"
  shows "digit_val c = Some (of_char c - 48)" and "of_char c - 48 < (10::nat)"
    and "\<not> isspace c" and "c \<noteq> CHR ''-''" and "c \<noteq> CHR ''+''"
  using assms by (auto simp: digit_val_def isspace_def)

lemma oct_digit:
  assumes "c \<in> set ''01234567''"
  shows "digit_val c = Some (of_char c - 48)" and "of_char c - 48 < (8::nat)"
    and "c \<noteq> CHR ''x''" and "c \<noteq> CHR ''X''" and "c \<noteq> CHR ''%''"
  using assms by (auto simp: digit_val_def)

lemma hex_digit:
  assumes "c \<in> set ''0123456789abcdefABCDEF''"
  shows "\<exists>d. digit_val c = Some d \<and> d < 16" and "c \<noteq> CHR ''%''"
  using assms by (auto simp: digit_val_def)

lemma not_dec_digit:
  assumes "c \<notin> set ''0123456789''"
  shows "case digit_val c of None \<Rightarrow> True | Some d \<Rightarrow> \<not> d < 10"
proof -
  have "\<not> (48 \<le> (of_char c :: nat) \<and> (of_char c :: nat) \<le> 57)"
  proof
    assume "48 \<le> (of_char c :: nat) \<and> (of_char c :: nat) \<le> 57"
    then have "(of_char c :: nat) \<in> {48, 49, 50, 51, 52, 53, 54, 55, 56, 57}"
      unfolding insert_iff empty_iff by presburger
    then have "(of_char c :: nat) \<in> of_char ` set ''0123456789''"
      by simp
    then obtain d where "d \<in> set ''0123456789''" and "(of_char c :: nat) = of_char d"
      by blast
    then have "c \<in> set ''0123456789''"
      by (simp only: of_char_eq_iff)
    with assms show False by simp
  qed
  then show ?thesis
    by (auto simp: digit_val_def Let_def)
qed

lemma conv_digits_append:
  assumes "\<forall>c\<in>set ds. \<exists>d. digit_val c = Some d \<and> d < b"
      and "rest = [] \<or> (case digit_val (hd rest) of None \<Rightarrow> True | Some d \<Rightarrow> \<not> d < b)"
  shows "conv_digits b acc (ds @ rest) = foldl (\<lambda>a c. a * b + the (digit_val c)) acc ds"
  using assms
proof (induction ds arbitrary: acc)
  case Nil
  then show ?case
    by (cases rest) (auto split: option.splits)
next
  case (Cons c ds)
  then show ?case by auto
qed

lemma foldl_digits_cong:
  assumes "\<forall>c\<in>set ds. digit_val c = Some (of_char c - 48)"
  shows "foldl (\<lambda>a c. a * b + the (digit_val c)) acc ds =
         foldl (\<lambda>a c. a * b + (of_char c - 48)) acc ds"
  using assms by (induction ds arbitrary: acc) simp_all

lemma strtoul_decimal:
  assumes "ds \<noteq> []" "set ds \<subseteq> set ''0123456789''"
      and "rest = [] \<or> hd rest \<notin> set ''0123456789''"
  shows "strtoul umax (ds @ rest) 10 =
         min umax (foldl (\<lambda>a c. a * 10 + (of_char c - 48)) 0 ds)"
proof -
  from assms(1) obtain c cs where ds: "ds = c # cs"
    by (cases ds) auto
  with assms(2) have c: "c \<in> set ''0123456789''"
    by simp
  have digits: "\<forall>c\<in>set ds. \<exists>d. digit_val c = Some d \<and> d < 10"
    using assms(2) dec_digit(1,2) by blast
  have stop: "rest = [] \<or> (case digit_val (hd rest) of None \<Rightarrow> True | Some d \<Rightarrow> \<not> d < 10)"
    using assms(3) not_dec_digit by blast
  have "conv_digits 10 0 (ds @ rest) = foldl (\<lambda>a c. a * 10 + (of_char c - 48)) 0 ds"
    using conv_digits_append [OF digits stop, of 0] foldl_digits_cong [of ds 10 0]
      assms(2) dec_digit(1) by (simp add: subset_iff)
  moreover have "dropWhile isspace (ds @ rest) = ds @ rest"
    using dec_digit(3) [OF c] ds by simp
  moreover have "strip_sign (ds @ rest) = (False, ds @ rest)"
    using dec_digit(4,5) [OF c] ds by simp
  ultimately show ?thesis
    by (auto simp add: strtoul_def min_def Let_def)
qed


lemma strtoul_hex:
  assumes "hs \<noteq> []" "set hs \<subseteq> set ''0123456789abcdefABCDEF''"
  shows "strtoul umax (''0x'' @ hs) 0 =
         min umax (foldl (\<lambda>a c. a * 16 + the (digit_val c)) 0 hs)"
proof -
  from assms(1) obtain c cs where hs: "hs = c # cs"
    by (cases hs) auto
  with assms(2) have "c \<in> set ''0123456789abcdefABCDEF''"
    by simp
  from hex_digit(1) [OF this] hs have prefix: "hex_prefix (''0x'' @ hs)"
    by auto
  have digits: "\<forall>c\<in>set hs. \<exists>d. digit_val c = Some d \<and> d < 16"
    using assms(2) hex_digit(1) by blast
  have "conv_digits 16 0 (hs @ []) = foldl (\<lambda>a c. a * 16 + the (digit_val c)) 0 hs"
    by (rule conv_digits_append [OF digits]) simp
  with prefix show ?thesis
    by (auto simp add: strtoul_def min_def Let_def isspace_def)
qed

lemma strtoul_octal:
  assumes "set os \<subseteq> set ''01234567''"
  shows "strtoul umax (CHR ''0'' # os) 0 =
         min umax (foldl (\<lambda>a c. a * 8 + (of_char c - 48)) 0 os)"
proof -
  have no_prefix: "\<not> hex_prefix (CHR ''0'' # os)"
  proof (cases os)
    case Nil
    then show ?thesis by simp
  next
    case (Cons c cs)
    with assms have "c \<in> set ''01234567''"
      by simp
    from oct_digit(3,4) [OF this] Cons show ?thesis
      by (cases cs) simp_all
  qed
  have digits: "\<forall>c\<in>set os. \<exists>d. digit_val c = Some d \<and> d < 8"
    using assms oct_digit(1,2) by blast
  have "conv_digits 8 0 (os @ []) = foldl (\<lambda>a c. a * 8 + the (digit_val c)) 0 os"
    by (rule conv_digits_append [OF digits]) simp
  also have "\<dots> = foldl (\<lambda>a c. a * 8 + (of_char c - 48)) 0 os"
    using assms oct_digit(1) by (intro foldl_digits_cong) blast
  finally have "conv_digits 8 0 (CHR ''0'' # os) = foldl (\<lambda>a c. a * 8 + (of_char c - 48)) 0 os"
    by (simp add: digit_val_def)
  with no_prefix show ?thesis
    by (auto simp add: strtoul_def min_def Let_def isspace_def)
qed

lemma duty_arg_last:
  "optarg \<noteq> [] \<Longrightarrow>
     duty_arg x optarg =
       (if last optarg = CHR ''%''
        then PWM_DUTY_PERCENT_FLAG x OR of_nat (strtoul (ULONG_MAX x) optarg 10)
        else of_nat (strtoul (ULONG_MAX x) optarg 0))"
  by (simp add: duty_arg_def Let_def last_conv_nth)

text \<open>
  C9. The \<open>--duty\<close> option stores \<open>duty_arg\<close> of its argument in \<open>config.duty_val\<close>. For a
  non-empty argument that is \<open>PWM_DUTY_PERCENT_FLAG\<close> or-ed with \<open>strtoul\<close> in base 10 when
  the last character is \<open>%\<close>, and \<open>strtoul\<close> in base 0 otherwise. So a percent argument
  that starts with decimal digits gives the flag or-ed with their base-10 value; a raw
  argument \<open>0x...\<close> is read as hexadecimal and \<open>0...\<close> as octal (each value cut to
  \<open>unsigned int\<close>, and at \<open>ULONG_MAX\<close> on overflow); and \<open>0\<close> and \<open>0%\<close> are stored as they
  are and handed to the interpreter in \<open>default_duty_val\<close> with no check.
\<close>

theorem duty_option:
  "switch_opt x (CHR ''D'') optarg (c, tr, w) =
     (None, c\<lparr>duty_val := duty_arg x optarg\<rparr>, tr, w) \<and>
   (optarg \<noteq> [] \<longrightarrow>
      duty_arg x optarg =
        (if last optarg = CHR ''%''
         then PWM_DUTY_PERCENT_FLAG x OR of_nat (strtoul (ULONG_MAX x) optarg 10)
         else of_nat (strtoul (ULONG_MAX x) optarg 0))) \<and>
   (ds \<noteq> [] \<and> set ds \<subseteq> set ''0123456789'' \<and>
    rest \<noteq> [] \<and> hd rest \<notin> set ''0123456789'' \<and> last rest = CHR ''%'' \<longrightarrow>
      duty_arg x (ds @ rest) =
        PWM_DUTY_PERCENT_FLAG x OR
        of_nat (min (ULONG_MAX x) (foldl (\<lambda>a ch. a * 10 + (of_char ch - 48)) 0 ds))) \<and>
   (hs \<noteq> [] \<and> set hs \<subseteq> set ''0123456789abcdefABCDEF'' \<longrightarrow>
      duty_arg x (''0x'' @ hs) =
        of_nat (min (ULONG_MAX x) (foldl (\<lambda>a ch. a * 16 + the (digit_val ch)) 0 hs))) \<and>
   (set os \<subseteq> set ''01234567'' \<longrightarrow>
      duty_arg x (CHR ''0'' # os) =
        of_nat (min (ULONG_MAX x) (foldl (\<lambda>a ch. a * 8 + (of_char ch - 48)) 0 os))) \<and>
   duty_arg x ''0'' = 0 \<and>
   duty_arg x ''0%'' = PWM_DUTY_PERCENT_FLAG x \<and>
   default_duty_val (execute_config c) = duty_val c"
proof (intro conjI impI)
  show "switch_opt x (CHR ''D'') optarg (c, tr, w) =
     (None, c\<lparr>duty_val := duty_arg x optarg\<rparr>, tr, w)"
    by (simp add: switch_opt_def)
next
  assume "optarg \<noteq> []"
  then show "duty_arg x optarg =
        (if last optarg = CHR ''%''
         then PWM_DUTY_PERCENT_FLAG x OR of_nat (strtoul (ULONG_MAX x) optarg 10)
         else of_nat (strtoul (ULONG_MAX x) optarg 0))"
    by (rule duty_arg_last)
next
  assume a: "ds \<noteq> [] \<and> set ds \<subseteq> set ''0123456789'' \<and>
    rest \<noteq> [] \<and> hd rest \<notin> set ''0123456789'' \<and> last rest = CHR ''%''"
  then have "strtoul (ULONG_MAX x) (ds @ rest) 10 =
      min (ULONG_MAX x) (foldl (\<lambda>a ch. a * 10 + (of_char ch - 48)) 0 ds)"
    by (intro strtoul_decimal) simp_all
  with a duty_arg_last [of "ds @ rest" x]
  show "duty_arg x (ds @ rest) =
        PWM_DUTY_PERCENT_FLAG x OR
        of_nat (min (ULONG_MAX x) (foldl (\<lambda>a ch. a * 10 + (of_char ch - 48)) 0 ds))"
    by simp
next
  assume a: "hs \<noteq> [] \<and> set hs \<subseteq> set ''0123456789abcdefABCDEF''"
  then have "last hs \<in> set ''0123456789abcdefABCDEF''"
    using last_in_set [of hs] by blast
  from hex_digit(2) [OF this] a have "last (''0x'' @ hs) \<noteq> CHR ''%''"
    by simp
  with a strtoul_hex [of hs "ULONG_MAX x"] duty_arg_last [of "''0x'' @ hs" x]
  show "duty_arg x (''0x'' @ hs) =
        of_nat (min (ULONG_MAX x) (foldl (\<lambda>a ch. a * 16 + the (digit_val ch)) 0 hs))"
    by simp
next
  assume a: "set os \<subseteq> set ''01234567''"
  have "last (CHR ''0'' # os) \<in> set ''01234567''"
    using a last_in_set [of "CHR ''0'' # os"] by auto
  from oct_digit(5) [OF this] have "last (CHR ''0'' # os) \<noteq> CHR ''%''" .
  with strtoul_octal [OF a, of "ULONG_MAX x"] duty_arg_last [of "CHR ''0'' # os" x]
  show "duty_arg x (CHR ''0'' # os) =
        of_nat (min (ULONG_MAX x) (foldl (\<lambda>a ch. a * 8 + (of_char ch - 48)) 0 os))"
    by simp
next
  show "duty_arg x ''0'' = 0"
    by (simp add: duty_arg_def strtoul_defs)
next
  show "duty_arg x ''0%'' = PWM_DUTY_PERCENT_FLAG x"
    by (simp add: duty_arg_def strtoul_defs)
next
  show "default_duty_val (execute_config c) = duty_val c"
    by (simp add: execute_config_def Let_def)
qed

theorem duty_option_witness:
  "''50%'' \<noteq> [] \<and>
   duty_arg (recording_extern 0 0) ''50%'' = 0x80000032 \<and>
   ''50'' \<noteq> [] \<and> set ''50'' \<subseteq> set ''0123456789'' \<and>
   ''%'' \<noteq> [] \<and> hd ''%'' \<notin> set ''0123456789'' \<and> last ''%'' = CHR ''%'' \<and>
   ''1F'' \<noteq> [] \<and> set ''1F'' \<subseteq> set ''0123456789abcdefABCDEF'' \<and>
   duty_arg (recording_extern 0 0) ''0x1F'' = 31 \<and>
   set ''17'' \<subseteq> set ''01234567'' \<and>
   duty_arg (recording_extern 0 0) ''017'' = 15 \<and>
   duty_arg (recording_extern 0 0) ''0x1F%'' = 0x80000000 \<and>
   duty_arg (recording_extern 0 0) ''017%'' = 0x80000011"
proof -
  let ?x = "recording_extern 0 0"
  note inst = duty_option [of ?x "''50%''" _ _ _ "''50''" "''%''" "''1F''" "''17''"]
  have dec: "''50'' \<noteq> [] \<and> set ''50'' \<subseteq> set ''0123456789'' \<and>
     ''%'' \<noteq> [] \<and> hd ''%'' \<notin> set ''0123456789'' \<and> last ''%'' = CHR ''%''"
    by simp
  have hex: "''1F'' \<noteq> [] \<and> set ''1F'' \<subseteq> set ''0123456789abcdefABCDEF''"
    by simp
  have oct: "set ''17'' \<subseteq> set ''01234567''"
    by simp
  from inst dec have "duty_arg ?x (''50'' @ ''%'') =
      PWM_DUTY_PERCENT_FLAG ?x OR
      of_nat (min (ULONG_MAX ?x) (foldl (\<lambda>a ch. a * 10 + (of_char ch - 48)) 0 ''50''))"
    by blast
  then have 1: "duty_arg ?x ''50%'' = 0x80000032"
    by (simp add: recording_extern_def)
  from inst hex have "duty_arg ?x (''0x'' @ ''1F'') =
      of_nat (min (ULONG_MAX ?x) (foldl (\<lambda>a ch. a * 16 + the (digit_val ch)) 0 ''1F''))"
    by blast
  then have 2: "duty_arg ?x ''0x1F'' = 31"
    by (simp add: recording_extern_def digit_val_def)
  from inst oct have "duty_arg ?x (CHR ''0'' # ''17'') =
      of_nat (min (ULONG_MAX ?x) (foldl (\<lambda>a ch. a * 8 + (of_char ch - 48)) 0 ''17''))"
    by blast
  then have 3: "duty_arg ?x ''017'' = 15"
    by (simp add: recording_extern_def)
  have 4: "duty_arg ?x ''0x1F%'' = 0x80000000" "duty_arg ?x ''017%'' = 0x80000011"
    by (simp_all add: duty_arg_def strtoul_defs recording_extern_def)
  from 1 2 3 4 dec hex oct show ?thesis
    by simp
qed

subsection \<open>The stop flag\<close>

lemma exit_flag_stays_set:
  "exit_flag_history 1 steps = replicate (Suc (length steps)) 1"
proof (induction steps)
  case Nil
  show ?case by simp
next
  case (Cons s steps)
  then show ?case
    by (cases s) (simp_all add: handle_signal_def)
qed

text \<open>
  C5. \<open>exit_flag\<close> starts as 0 (false); every signal delivery writes 1 (true) and nothing
  writes 0. So over any run the flag is 0 up to the first signal and 1 from then on: it
  changes at most once, from false to true.
\<close>

theorem exit_flag_monotone:
  "exit_flag_history exit_flag_init steps =
     replicate (Suc (length (takeWhile (\<lambda>s. s = Program_step) steps))) 0 @
     replicate (length (dropWhile (\<lambda>s. s = Program_step) steps)) 1"
proof -
  have "exit_flag_history 0 steps =
     replicate (Suc (length (takeWhile (\<lambda>s. s = Program_step) steps))) 0 @
     replicate (length (dropWhile (\<lambda>s. s = Program_step) steps)) 1"
  proof (induction steps)
    case Nil
    show ?case by simp
  next
    case (Cons s steps)
    show ?case
    proof (cases s)
      case (Signal_delivered n)
      then show ?thesis
        by (simp add: handle_signal_def exit_flag_stays_set)
    next
      case Program_step
      with Cons.IH show ?thesis by simp
    qed
  qed
  then show ?thesis
    by (simp add: exit_flag_init_def)
qed

section \<open>Properties of the core as specified\<close>

subsection \<open>The Duty Encoder\<close>

text \<open>
  C6. For every period, \<open>encode (Percent p) period\<close> is \<open>period * p / 100\<close> for \<open>p\<close> from 1
  to 100 and \<open>encode (Raw v) period\<close> is \<open>period * v / 255\<close> for \<open>v\<close> from 1 to 255, the
  division truncating; \<open>encode\<close> is a function of its two arguments and has no effect.
\<close>

theorem encode_formula:
  "(1 \<le> unat p \<and> unat p \<le> 100 \<longrightarrow> encode (Percent p) period = Inr (period * unat p div 100)) \<and>
   (1 \<le> unat v \<and> unat v \<le> 255 \<longrightarrow> encode (Raw v) period = Inr (period * unat v div 255))"
proof (intro conjI impI)
  assume a: "1 \<le> unat p \<and> unat p \<le> 100"
  then have "p \<noteq> 0"
    by auto
  moreover from a have "\<not> 100 < p"
    by (simp add: word_less_nat_alt)
  ultimately show "encode (Percent p) period = Inr (period * unat p div 100)"
    by simp
next
  assume "1 \<le> unat v \<and> unat v \<le> 255"
  then have "v \<noteq> 0"
    by auto
  then show "encode (Raw v) period = Inr (period * unat v div 255)"
    by simp
qed

theorem encode_formula_witness:
  "1 \<le> unat (50 :: 8 word) \<and> unat (50 :: 8 word) \<le> 100 \<and>
   encode (Percent 50) 1000000 = Inr 500000 \<and>
   1 \<le> unat (128 :: 8 word) \<and> unat (128 :: 8 word) \<le> 255 \<and>
   encode (Raw 128) 1000000 = Inr 501960"
  using encode_formula [of 50 1000000 128]
  by simp

text \<open>
  C7. \<open>encode\<close> fails with \<open>InvalidDutyRange\<close>, and gives no duty at all, exactly for
  \<open>Raw 0\<close>, \<open>Percent 0\<close> and \<open>Percent p\<close> with \<open>p\<close> above 100.
\<close>

theorem encode_rejects:
  "(encode d period = Inl InvalidDutyRange \<longleftrightarrow>
      d = Raw 0 \<or> d = Percent 0 \<or> (\<exists>p. d = Percent p \<and> 100 < unat p)) \<and>
   ((\<forall>y. encode d period \<noteq> Inr y) \<longleftrightarrow>
      d = Raw 0 \<or> d = Percent 0 \<or> (\<exists>p. d = Percent p \<and> 100 < unat p))"
  by (cases d) (auto simp: word_less_nat_alt)

theorem encode_rejects_witness:
  "encode (Percent 101) 1000 = Inl InvalidDutyRange \<and>
   encode (Percent 0) 1000 = Inl InvalidDutyRange \<and>
   encode (Raw 0) 1000 = Inl InvalidDutyRange \<and>
   encode (Percent 100) 1000 \<noteq> Inl InvalidDutyRange \<and>
   encode (Raw 255) 1000 \<noteq> Inl InvalidDutyRange"
proof -
  have "(101 :: 8 word) \<noteq> 0" "100 < unat (101 :: 8 word)" "\<not> 100 < unat (100 :: 8 word)"
    "(100 :: 8 word) \<noteq> 0" "(255 :: 8 word) \<noteq> 0"
    by simp_all
  with encode_rejects [of "Percent 101" 1000] encode_rejects [of "Percent 0" 1000]
    encode_rejects [of "Raw 0" 1000] encode_rejects [of "Percent 100" 1000]
    encode_rejects [of "Raw 255" 1000]
  show ?thesis by simp
qed

subsection \<open>Interruption before the first step\<close>

text \<open>
  C8. If the stop signal is already set at the interpreter's first check, then for every
  script the interpreter executes no command, leaves the device as it was and returns
  \<open>Interrupted\<close>, a status that is neither success nor any failure. Whatever status the
  interpreter returns, \<open>main\<close> calls \<open>pwm_close\<close> right after it.
\<close>

theorem interrupted_before_first_step:
  assumes "stop 0"
  shows "execute h cfg stop d = (Interrupted, d, []) \<and>
         (\<forall>e. Interrupted \<noteq> Failed e) \<and> Interrupted \<noteq> Success \<and>
         (main x argv w = (code, tr, w') \<and> Call_pwm_execute ec \<in> set tr \<longrightarrow>
            (\<exists>pre post. tr = pre @ [Call_pwm_execute ec, Call_pwm_close] @ post))"
proof (intro conjI impI)
  from assms show "execute h cfg stop d = (Interrupted, d, [])"
    by (cases "script_text cfg") (simp_all add: execute_def)
next
  show "\<forall>e. Interrupted \<noteq> Failed e" by simp
next
  show "Interrupted \<noteq> Success" by simp
next
  assume run: "main x argv w = (code, tr, w') \<and> Call_pwm_execute ec \<in> set tr"
  show "\<exists>pre post. tr = pre @ [Call_pwm_execute ec, Call_pwm_close] @ post"
  proof (cases rule: main_cases [of x argv w])
    case (exits n c tr1 w1)
    with run show ?thesis by auto
  next
    case (invalid c w1)
    with run show ?thesis by auto
  next
    case (open_fails c w1 ret w2)
    with run cleanup_cases [of c] show ?thesis by auto
  next
    case (runs c w1 w2)
    with run cleanup_cases [of c] have "ec = execute_config c"
      by auto
    with runs(4) run have "tr = [Call_atexit_cleanup, Call_signal_SIGINT,
        Call_pwm_open (chip c) (channel c) (PWM_FLAG_EXPORT x)] @
        [Call_pwm_execute ec, Call_pwm_close] @ cleanup c"
      by simp
    then show ?thesis by blast
  qed
qed

theorem interrupted_before_first_step_witness:
  "(\<lambda>k::nat. True) 0 \<and>
   execute logging_device
     \<lparr>script_text = ''fdu'', frequency = 1000, duration = 250, duty = Percent 50\<rparr>
     (\<lambda>k. True) [] = (Interrupted, [], []) \<and>
   main (recording_extern 0 4) [] [] =
     (4,
      [Call_atexit_cleanup, Call_signal_SIGINT, Call_pwm_open 0 0 1] @
      [Call_pwm_execute
         \<lparr>exec_script = Some ''fdu'', default_frequency_hz = 1000, default_duration_ms = 250,
          default_duty_val = 0x80000032, stop_flag = Addr_exit_flag\<rparr>,
       Call_pwm_close] @ [],
      [Call_pwm_open 0 0 1,
       Call_pwm_execute
         \<lparr>exec_script = Some ''fdu'', default_frequency_hz = 1000, default_duration_ms = 250,
          default_duty_val = 0x80000032, stop_flag = Addr_exit_flag\<rparr>,
       Call_pwm_close])"
proof -
  let ?e = "\<lparr>exec_script = Some ''fdu'', default_frequency_hz = 1000, default_duration_ms = 250,
             default_duty_val = 0x80000032, stop_flag = Addr_exit_flag\<rparr>"
  have set: "(\<lambda>k::nat. True) 0"
    by simp
  have run: "main (recording_extern 0 4) [] [] =
     (4,
      [Call_atexit_cleanup, Call_signal_SIGINT, Call_pwm_open 0 0 1,
       Call_pwm_execute ?e, Call_pwm_close],
      [Call_pwm_open 0 0 1, Call_pwm_execute ?e, Call_pwm_close])"
    by (simp add: run_defs)
  from interrupted_before_first_step [OF set, of logging_device
      "\<lparr>script_text = ''fdu'', frequency = 1000, duration = 250, duty = Percent 50\<rparr>" "[]"]
  have "execute logging_device
     \<lparr>script_text = ''fdu'', frequency = 1000, duration = 250, duty = Percent 50\<rparr>
     (\<lambda>k. True) [] = (Interrupted, [], [])"
    by (rule conjunct1)
  with run show ?thesis by simp
qed

end
